theory Spec2Isabelle
  imports Complex_Main "HOL-Library.Sublist"
begin

section \<open>JavaScript strings and the string operations of \<open>src/index.js\<close>\<close>

text \<open>
  A JavaScript string is modelled as a \<^typ>\<open>string\<close>: every \<^typ>\<open>char\<close> is one code
  unit below 256 (Latin-1). A value that may be \<open>undefined\<close> is an \<open>option\<close>,
  \<open>None\<close> being \<open>undefined\<close>.
\<close>

definition isSpace :: "char \<Rightarrow> bool" where
  \<comment> \<open>the class \<open>\s\<close> of a regular expression, below 256: TAB, LF, VT, FF, CR, SP, NBSP\<close>
  "isSpace c = (of_char c \<in> {9, 10, 11, 12, 13, 32, 160 :: nat})"

definition isUpperAZ :: "char \<Rightarrow> bool" where
  \<comment> \<open>the class \<open>[A-Z]\<close>\<close>
  "isUpperAZ c = (65 \<le> (of_char c :: nat) \<and> (of_char c :: nat) \<le> 90)"

definition toLowerChar :: "char \<Rightarrow> char" where
  \<comment> \<open>\<open>toLowerCase\<close> on one code unit below 256: A-Z and the accented capitals
      0xC0-0xDE (the multiplication sign 0xD7 apart) move up by 32\<close>
  "toLowerChar c =
     (let n = (of_char c :: nat)
      in if (65 \<le> n \<and> n \<le> 90) \<or> (192 \<le> n \<and> n \<le> 222 \<and> n \<noteq> 215)
         then char_of (n + 32) else c)"

definition toLowerCase :: "string \<Rightarrow> string" where
  "toLowerCase s = map toLowerChar s"

definition truthy :: "string option \<Rightarrow> bool" where
  \<comment> \<open>a string or \<open>undefined\<close> in a condition: \<open>undefined\<close> and \<open>''\<close> are falsy\<close>
  "truthy v = (case v of None \<Rightarrow> False | Some s \<Rightarrow> s \<noteq> [])"

definition str :: "string option \<Rightarrow> string" where
  \<comment> \<open>a value inside a template literal or a concatenation\<close>
  "str v = (case v of None \<Rightarrow> ''undefined'' | Some s \<Rightarrow> s)"

definition startsWith :: "string \<Rightarrow> string \<Rightarrow> bool" where
  "startsWith s p = (take (length p) s = p)"

fun camelToDotted :: "string \<Rightarrow> string" where
  \<comment> \<open>\<open>prop.replace(/([A-Z])/g, x => '.' + x.toLowerCase())\<close>\<close>
  "camelToDotted [] = []"
| "camelToDotted (c # cs) =
     (if isUpperAZ c then CHR ''.'' # toLowerChar c # camelToDotted cs
      else c # camelToDotted cs)"

definition intentName :: "string \<Rightarrow> string" where
  \<comment> \<open>line 156: \<open>prop.replace(...).substr(7)\<close>\<close>
  "intentName prop = drop 7 (camelToDotted prop)"

function replaceSpaces :: "string \<Rightarrow> string" where
  \<comment> \<open>\<open>name.replace(/\s+/g, '.')\<close>: every maximal run of white space becomes one dot\<close>
  "replaceSpaces [] = []"
| "replaceSpaces (c # cs) =
     (if isSpace c then CHR ''.'' # replaceSpaces (dropWhile isSpace cs)
      else c # replaceSpaces cs)"
  by pat_completeness auto
termination
  by (relation "measure length") (auto simp: length_dropWhile_le less_Suc_eq_le)

function splitLoop :: "nat \<Rightarrow> string list \<Rightarrow> string \<Rightarrow> string \<Rightarrow> string list" where
  \<comment> \<open>the loop of \<open>String.prototype.split\<close> for the separator \<open>/\s+/\<close> and a limit
      \<open>k > 0\<close>: \<open>acc\<close> is the array so far, \<open>cur\<close> the piece since the last match;
      at a white-space character the piece is pushed, the array is returned when it has
      \<open>k\<close> elements, and the scan resumes after the whole run; at the end of the
      string the last piece is pushed\<close>
  "splitLoop k acc cur [] = acc @ [cur]"
| "splitLoop k acc cur (c # cs) =
     (if isSpace c
      then (if length (acc @ [cur]) = k then acc @ [cur]
            else splitLoop k (acc @ [cur]) [] (dropWhile isSpace cs))
      else splitLoop k acc (cur @ [c]) cs)"
  by pat_completeness auto
termination
  by (relation "measure (\<lambda>(k, acc, cur, s). length s)")
     (auto simp: length_dropWhile_le less_Suc_eq_le)

definition spaceFree :: "string \<Rightarrow> bool" where
  \<comment> \<open>no white space in the string\<close>
  "spaceFree t = (\<forall>c \<in> set t. \<not> isSpace c)"

definition splitSpaces :: "string \<Rightarrow> nat \<Rightarrow> string list" where
  \<comment> \<open>\<open>s.split(/\s+/, k)\<close>; a limit of 0 gives the empty array\<close>
  "splitSpaces s k = (if k = 0 then [] else splitLoop k [] [] s)"

text \<open>
  For stating what \<open>split\<close> returns: a string written as a first piece followed by
  gaps and pieces, each gap a non-empty run of white space, each piece free of white
  space and, the last apart, not empty.
\<close>

fun joinPieces :: "string \<Rightarrow> (string \<times> string) list \<Rightarrow> string" where
  "joinPieces w [] = w"
| "joinPieces w ((gap, w1) # rest) = w @ gap @ joinPieces w1 rest"

fun gapped :: "(string \<times> string) list \<Rightarrow> bool" where
  "gapped [] = True"
| "gapped ((gap, w) # rest) =
     (gap \<noteq> [] \<and> list_all isSpace gap \<and> spaceFree w \<and> (w \<noteq> [] \<or> rest = []) \<and> gapped rest)"

definition orElse :: "string option \<Rightarrow> string \<Rightarrow> string" where
  \<comment> \<open>\<open>a || b\<close> for a string or \<open>undefined\<close> on the left\<close>
  "orElse a b = (case a of None \<Rightarrow> b | Some s \<Rightarrow> if s = [] then b else s)"

definition elemAt :: "'a list \<Rightarrow> nat \<Rightarrow> 'a option" where
  \<comment> \<open>\<open>xs[i]\<close>: \<open>undefined\<close> out of range\<close>
  "elemAt xs i = (if i < length xs then Some (xs ! i) else None)"

section \<open>Data model\<close>

datatype error = JsError string
  \<comment> \<open>a thrown value or a rejection, as its printable description \<open>`${e}`\<close>\<close>

fun description :: "error \<Rightarrow> string" where
  "description (JsError d) = d"

record botTag =
  tag_id :: string
  tag_slug :: string

record botOrg =
  org_slug :: string

record botUser =
  bot_id :: string
  first_name :: "string option"
  middle_name :: "string option"
  last_name :: "string option"
  tag :: botTag
  org :: botOrg

record dist =
  userids :: "string list"

record params =
  param_type :: "string option"
  param_name :: "string option"

record nluResult =
  action :: string
  parameters :: params
  speech :: "string option"

record respMsg =
  distribution :: dist
  threadId :: string
  resp_text :: "string option"
  resp_html :: "string option"

record part =
  part_type :: string
  part_value :: "string option"

record event =
  ev_source :: string
  ev_body :: "part list option"
  ev_expression :: string
  ev_threadId :: string

type_synonym updates = "(string \<times> string option) list"
  \<comment> \<open>the object \<open>updates\<close>, its keys in the order they are assigned\<close>

datatype call =
    ResolveTags string
  | TextRequest string string
  | PatchUser string updates
  | PatchTag string updates
  | Send respMsg

text \<open>
  The collaborators the script calls and does not implement: the regular-expression
  engine (\<open>text.match(new RegExp(p, 'i'))\<close>, \<open>Inl\<close> a SyntaxError of the pattern,
  \<open>Inr True\<close> a match), \<open>atlas.resolveTags\<close>, the request of \<open>aiRequest\<close>,
  \<open>atlas.fetch\<close> with method PATCH on a user and on a tag, \<open>msgSend.send\<close>,
  \<open>Math.random\<close> (the double it returns, as a rational), and the TypeError the
  engine raises for a method call on \<open>undefined\<close>. Every call made is recorded as a
  \<^typ>\<open>call\<close>, in order.
\<close>

record env =
  regexTest :: "string \<Rightarrow> string \<Rightarrow> error + bool"
  resolveTags :: "string \<Rightarrow> error + dist"
  textRequest :: "string \<Rightarrow> string \<Rightarrow> error + nluResult"
  patchUser :: "string \<Rightarrow> updates \<Rightarrow> error + botUser"
  patchTag :: "string \<Rightarrow> updates \<Rightarrow> error + botTag"
  send :: "respMsg \<Rightarrow> error + unit"
  random :: rat
  typeError :: error

text \<open>The mutable data of \<open>msgListener\<close>: \<open>state.bot\<close> and \<open>distCache\<close>.\<close>

record listener =
  bot :: botUser
  distCache :: "string \<rightharpoonup> dist"

section \<open>Addressing: \<open>needsResponse\<close> (lines 73-85)\<close>

definition regexSource :: "string option \<Rightarrow> string" where
  \<comment> \<open>the pattern of \<open>new RegExp(v, 'i')\<close>: \<open>undefined\<close> gives the empty pattern\<close>
  "regexSource v = (case v of None \<Rightarrow> [] | Some s \<Rightarrow> s)"

definition needsResponse ::
  "env \<Rightarrow> string \<Rightarrow> listener \<Rightarrow> string \<Rightarrow> dist \<Rightarrow> string \<Rightarrow> error + bool option" where
  \<comment> \<open>\<open>botId\<close> is \<open>bot.id\<close> of the listener's own binding; the names are read from
      \<open>state.bot\<close>. The result \<open>Some True\<close> is \<open>true\<close>, \<open>None\<close> is \<open>undefined\<close>
      (the function ends without a \<open>return\<close>).\<close>
  "needsResponse env botId st sender d txt =
     (let members = remdups (userids d);
          members = removeAll botId members;
          members = removeAll sender members
      in if length members = 0 then Inr (Some True)
         else (case regexTest env (regexSource (first_name (bot st))) txt of
                 Inl e \<Rightarrow> Inl e
               | Inr True \<Rightarrow> Inr (Some True)
               | Inr False \<Rightarrow>
                   (case regexTest env (regexSource (last_name (bot st))) txt of
                      Inl e \<Rightarrow> Inl e
                    | Inr True \<Rightarrow> Inr (Some True)
                    | Inr False \<Rightarrow>
                        (case regexTest env (tag_slug (tag (bot st))) txt of
                           Inl e \<Rightarrow> Inl e
                         | Inr True \<Rightarrow> Inr (Some True)
                         | Inr False \<Rightarrow> Inr None))))"

section \<open>Distribution cache (lines 101-105)\<close>

definition resolve :: "env \<Rightarrow> listener \<Rightarrow> string \<Rightarrow> (error + dist) \<times> listener \<times> call list" where
  \<comment> \<open>the resolution of one event when no other event is handled during its
      \<open>await\<close> (\<open>resolveBegin\<close>, then \<open>resolveEnd\<close> at once): a rejection of
      \<open>resolveTags\<close> leaves the cache as it was; \<open>distCache.get\<close> of a key that
      \<open>has\<close> found or \<open>set\<close> stored is its value\<close>
  "resolve env st distExpr =
     (case distCache st distExpr of
        Some d \<Rightarrow> (Inr d, st, [])
      | None \<Rightarrow>
          (case resolveTags env distExpr of
             Inl e \<Rightarrow> (Inl e, st, [ResolveTags distExpr])
           | Inr d \<Rightarrow>
               (Inr d, st\<lparr>distCache := (distCache st)(distExpr \<mapsto> d)\<rparr>,
                [ResolveTags distExpr])))"

datatype begun = Hit dist | Awaiting "error + dist"

definition resolveBegin :: "env \<Rightarrow> listener \<Rightarrow> string \<Rightarrow> begun \<times> call list" where
  \<comment> \<open>line 102 and the call of line 103, up to the \<open>await\<close>: on a miss
      \<open>resolveTags\<close> is called and its promise awaited; \<open>Awaiting a\<close> holds what
      the promise will settle with\<close>
  "resolveBegin env st distExpr =
     (case distCache st distExpr of
        Some d \<Rightarrow> (Hit d, [])
      | None \<Rightarrow> (Awaiting (resolveTags env distExpr), [ResolveTags distExpr]))"

definition resolveEnd :: "listener \<Rightarrow> string \<Rightarrow> error + dist \<Rightarrow> (error + dist) \<times> listener" where
  \<comment> \<open>after the \<open>await\<close>, on the cache as it is then: a rejection propagates, an
      answer is stored by \<open>distCache.set\<close> (line 103) and read back (line 105)\<close>
  "resolveEnd st distExpr answer =
     (case answer of
        Inl e \<Rightarrow> (Inl e, st)
      | Inr d \<Rightarrow> (Inr d, st\<lparr>distCache := (distCache st)(distExpr \<mapsto> d)\<rparr>))"






section \<open>The intent manager (lines 148-266)\<close>

datatype protoMethod =
    Constructor
  | UpdateBotUser
  | UpdateBotTag
  | HandleNameAgentGet
  | HandleNameAgentChange
  | HandleNameAgentDelete
  | FindHandler

definition prototype :: "(string \<times> protoMethod) list" where
  \<comment> \<open>\<open>Object.getOwnPropertyNames\<close> of the prototype of \<open>IntentManager\<close>, in the order
      of the class body, each name with the method \<open>this[prop]\<close>\<close>
  "prototype =
     [(''constructor'', Constructor),
      (''updateBotUser'', UpdateBotUser),
      (''updateBotTag'', UpdateBotTag),
      (''handleNameAgentGet'', HandleNameAgentGet),
      (''handleNameAgentChange'', HandleNameAgentChange),
      (''handleNameAgentDelete'', HandleNameAgentDelete),
      (''findHandler'', FindHandler)]"

fun registerAll :: "(string \<times> 'm) list \<Rightarrow> (string \<rightharpoonup> 'm) \<Rightarrow> (string \<rightharpoonup> 'm)" where
  \<comment> \<open>the loop of the constructor (lines 153-159) on the map \<open>this.handlers\<close>\<close>
  "registerAll [] hs = hs"
| "registerAll ((prop, m) # ps) hs =
     (if startsWith prop ''handle''
      then registerAll ps (hs(intentName prop \<mapsto> m))
      else registerAll ps hs)"

definition handlers :: "string \<rightharpoonup> protoMethod" where
  "handlers = registerAll prototype Map.empty"

definition findHandler :: "string \<Rightarrow> protoMethod option" where
  \<comment> \<open>lines 257-265, the logging apart: \<open>None\<close> is \<open>undefined\<close>\<close>
  "findHandler name = handlers name"

datatype result =
    RString string
  | RUndefined
  | RObject "string option option" "string option option"
  \<comment> \<open>what a handler returns: a string, nothing, or an object, of which the keys
      \<open>text\<close> and \<open>html\<close> are modelled (\<open>None\<close> an absent key, \<open>Some None\<close> a key
      holding \<open>undefined\<close>)\<close>

definition updateBotUser ::
  "env \<Rightarrow> listener \<Rightarrow> updates \<Rightarrow> (error + botUser) \<times> listener \<times> call list" where
  "updateBotUser env st ups =
     (case patchUser env (bot_id (bot st)) ups of
        Inl e \<Rightarrow> (Inl e, st, [PatchUser (bot_id (bot st)) ups])
      | Inr b \<Rightarrow> (Inr b, st\<lparr>bot := b\<rparr>, [PatchUser (bot_id (bot st)) ups]))"

definition updateBotTag ::
  "env \<Rightarrow> listener \<Rightarrow> updates \<Rightarrow> (error + botTag) \<times> listener \<times> call list" where
  "updateBotTag env st ups =
     (case patchTag env (tag_id (tag (bot st))) ups of
        Inl e \<Rightarrow> (Inl e, st, [PatchTag (tag_id (tag (bot st))) ups])
      | Inr t \<Rightarrow>
          (Inr t, st\<lparr>bot := (bot st)\<lparr>tag := t\<rparr>\<rparr>, [PatchTag (tag_id (tag (bot st))) ups]))"

definition handleNameAgentGet :: "env \<Rightarrow> listener \<Rightarrow> params \<Rightarrow> result" where
  \<comment> \<open>0.33 and 0.66 are the doubles nearest to these decimals\<close>
  "handleNameAgentGet env st ps =
     (let b = bot st in
      if truthy (param_type ps) then
        (if param_type ps = Some ''first name''
         then RString (orElse (first_name b) (''I don'' @ [CHR 0x27] @ ''t have a first name.''))
         else if param_type ps = Some ''last name''
         then RString (orElse (last_name b) (''I don'' @ [CHR 0x27] @ ''t have a last name.''))
         else if param_type ps = Some ''middle name''
         then RString (orElse (middle_name b) (''I don'' @ [CHR 0x27] @ ''t have a middle name.''))
         else if param_type ps = Some ''tag''
         then RString (''@'' @ tag_slug (tag b) @ '':'' @ org_slug (org b))
         else RUndefined)
      else
        (if random env < 5944751508129055 / 18014398509481984
         then RString (''You can call me '' @ str (first_name b))
         else if random env < 5944751508129055 / 9007199254740992
         then RString (''You are speaking with '' @ str (first_name b) @ '' '' @ str (last_name b))
         else RString (''My tag is @'' @ tag_slug (tag b) @ '':'' @ org_slug (org b))))"

definition okayNow :: "botUser \<Rightarrow> string" where
  \<comment> \<open>the confirmation of lines 234 and 254\<close>
  "okayNow b =
     ''Okay, I'' @ [CHR 0x27] @ ''m now '' @ str (first_name b) @ '' '' @ str (middle_name b)
       @ '' '' @ str (last_name b)"

definition patchAndConfirm ::
  "env \<Rightarrow> listener \<Rightarrow> updates \<Rightarrow> (error + result) \<times> listener \<times> call list" where
  \<comment> \<open>lines 233-234 and 253-254: \<open>updateBotUser\<close>, then the confirmation from the
      user it returned\<close>
  "patchAndConfirm env st ups =
     (case updateBotUser env st ups of
        (Inl e, st1, cs) \<Rightarrow> (Inl e, st1, cs)
      | (Inr b, st1, cs) \<Rightarrow> (Inr (RString (okayNow b)), st1, cs))"

definition handleNameAgentChange ::
  "env \<Rightarrow> listener \<Rightarrow> params \<Rightarrow> (error + result) \<times> listener \<times> call list" where
  "handleNameAgentChange env st ps =
     (if truthy (param_type ps) then
        (if param_type ps = Some ''first name''
         then patchAndConfirm env st [(''first_name'', param_name ps)]
         else if param_type ps = Some ''last name''
         then patchAndConfirm env st [(''last_name'', param_name ps)]
         else if param_type ps = Some ''middle name''
         then patchAndConfirm env st [(''middle_name'', param_name ps)]
         else if param_type ps = Some ''tag''
         then (case param_name ps of
                 None \<Rightarrow> (Inl (typeError env), st, [])
               | Some name \<Rightarrow>
                   (let slug = toLowerCase (replaceSpaces name) in
                    case updateBotTag env st [(''slug'', Some slug)] of
                      (Inl e, st1, cs) \<Rightarrow> (Inl e, st1, cs)
                    | (Inr t, st1, cs) \<Rightarrow>
                        (Inr (RString (''Okay, my tag is now @'' @ tag_slug t @ '':''
                                         @ org_slug (org (bot st1)))),
                         st1, cs)))
         else patchAndConfirm env st [])
      else
        (case param_name ps of
           None \<Rightarrow> (Inr (RString ''To what?''), st, [])
         | Some name \<Rightarrow>
             if name = [] then (Inr (RString ''To what?''), st, [])
             else
               (let names = splitSpaces name 3;
                    ups = [(''first_name'', elemAt names 0)];
                    ups = (if length names = 2 then ups @ [(''last_name'', elemAt names 1)]
                           else if length names = 3
                           then ups @ [(''middle_name'', elemAt names 1),
                                       (''last_name'', elemAt names 2)]
                           else ups)
                in patchAndConfirm env st ups)))"

definition handleNameAgentDelete ::
  "env \<Rightarrow> listener \<Rightarrow> params \<Rightarrow> (error + result) \<times> listener \<times> call list" where
  "handleNameAgentDelete env st ps =
     (if \<not> truthy (param_type ps)
      then (Inr (RString (''I can'' @ [CHR 0x27] @ ''t delete my whole name silly.'')), st, [])
      else if param_type ps = Some ''first name''
      then (Inr (RString ''I must have a first name!''), st, [])
      else if param_type ps = Some ''last name''
      then (Inr (RString ''I must have a last name!''), st, [])
      else if param_type ps = Some ''middle name''
      then patchAndConfirm env st [(''middle_name'', Some [])]
      else if param_type ps = Some ''tag''
      then (Inr (RString ''I must have a tag!''), st, [])
      else patchAndConfirm env st [])"

fun invoke ::
  "protoMethod \<Rightarrow> env \<Rightarrow> listener \<Rightarrow> params \<Rightarrow> (error + result) \<times> listener \<times> call list" where
  \<comment> \<open>\<open>intentHandler(aiResp.parameters)\<close> for a method of the registry; the registry
      holds the three \<open>handle\<close> methods only (\<open>handlers_range\<close>), so the last
      equation is never reached\<close>
  "invoke HandleNameAgentGet env st ps = (Inr (handleNameAgentGet env st ps), st, [])"
| "invoke HandleNameAgentChange env st ps = handleNameAgentChange env st ps"
| "invoke HandleNameAgentDelete env st ps = handleNameAgentDelete env st ps"
| "invoke _ env st ps = (Inl (typeError env), st, [])"

section \<open>The message listener (lines 86-135)\<close>

fun firstTextPlain :: "part list \<Rightarrow> string option" where
  \<comment> \<open>lines 90-95: the value of the first part of type \<open>text/plain\<close>\<close>
  "firstTextPlain [] = None"
| "firstTextPlain (x # xs) =
     (if part_type x = ''text/plain'' then part_value x else firstTextPlain xs)"

definition assign :: "respMsg \<Rightarrow> result \<Rightarrow> respMsg" where
  \<comment> \<open>lines 120-124: a string replaces the text, \<open>Object.assign\<close> copies the keys of an
      object and does nothing for \<open>undefined\<close>\<close>
  "assign m res =
     (case res of
        RString s \<Rightarrow> m\<lparr>resp_text := Some s\<rparr>
      | RUndefined \<Rightarrow> m
      | RObject t h \<Rightarrow>
          (let m1 = (case t of None \<Rightarrow> m | Some v \<Rightarrow> m\<lparr>resp_text := v\<rparr>)
           in case h of None \<Rightarrow> m1 | Some v \<Rightarrow> m1\<lparr>resp_html := v\<rparr>))"

definition apology :: "error \<Rightarrow> respMsg \<Rightarrow> respMsg" where
  \<comment> \<open>lines 127-128\<close>
  "apology e m =
     m\<lparr>resp_text := Some (''Affraid I can'' @ [CHR 0x27] @ ''t do that boss...'' @ [CHR 0x0A]
                            @ ''('' @ description e @ '')''),
       resp_html := Some (''Affraid I can'' @ [CHR 0x27] @ ''t do that boss...<br/><pre>''
                            @ description e @ ''</pre>'')\<rparr>"

definition nothingToDo :: "string \<Rightarrow> string" where
  \<comment> \<open>line 132\<close>
  "nothingToDo act = ''I have nothing to do with: \"'' @ act @ ''\"''"

definition fallback :: "string \<Rightarrow> respMsg \<Rightarrow> respMsg" where
  \<comment> \<open>lines 131-133\<close>
  "fallback act m = (if \<not> truthy (resp_text m) then m\<lparr>resp_text := Some (nothingToDo act)\<rparr> else m)"

definition compose ::
  "(protoMethod \<Rightarrow> env \<Rightarrow> listener \<Rightarrow> params \<Rightarrow> (error + result) \<times> listener \<times> call list) \<Rightarrow>
   env \<Rightarrow> listener \<Rightarrow> dist \<Rightarrow> string \<Rightarrow> nluResult \<Rightarrow> protoMethod option \<Rightarrow>
   respMsg \<times> listener \<times> call list" where
  \<comment> \<open>lines 112-133 for the handler \<open>intentHandler\<close>; \<open>run\<close> is the call of a handler\<close>
  "compose run env st d tid aiResp intentHandler =
     (let m = \<lparr>distribution = d, threadId = tid, resp_text = speech aiResp, resp_html = None\<rparr>
      in case intentHandler of
           None \<Rightarrow> (fallback (action aiResp) m, st, [])
         | Some h \<Rightarrow>
             (case run h env st (parameters aiResp) of
                (Inr res, st1, cs) \<Rightarrow> (fallback (action aiResp) (assign m res), st1, cs)
              | (Inl e, st1, cs) \<Rightarrow> (fallback (action aiResp) (apology e m), st1, cs)))"

definition respond ::
  "env \<Rightarrow> listener \<Rightarrow> dist \<Rightarrow> string \<Rightarrow> nluResult \<Rightarrow> respMsg \<times> listener \<times> call list" where
  \<comment> \<open>lines 111-133\<close>
  "respond env st d tid aiResp = compose invoke env st d tid aiResp (findHandler (action aiResp))"

datatype outcome = EmptyMessage | NotForMe | Rejected error | Done

definition onMessage ::
  "env \<Rightarrow> string \<Rightarrow> listener \<Rightarrow> event \<Rightarrow> outcome \<times> listener \<times> call list" where
  \<comment> \<open>the listener of \<open>message\<close> on an event whose body is already parsed; \<open>Rejected\<close>
      is the rejection of the promise of the listener, by an error no handler caught\<close>
  "onMessage env botId st ev =
     (case (case ev_body ev of None \<Rightarrow> None | Some parts \<Rightarrow> firstTextPlain parts) of
        None \<Rightarrow> (EmptyMessage, st, [])
      | Some txt \<Rightarrow>
          if txt = [] then (EmptyMessage, st, [])
          else
            (case resolve env st (ev_expression ev) of
               (Inl e, st1, cs1) \<Rightarrow> (Rejected e, st1, cs1)
             | (Inr d, st1, cs1) \<Rightarrow>
                 (case needsResponse env botId st1 (ev_source ev) d txt of
                    Inl e \<Rightarrow> (Rejected e, st1, cs1)
                  | Inr r \<Rightarrow>
                      if r \<noteq> Some True then (NotForMe, st1, cs1)
                      else
                        (case textRequest env txt (ev_threadId ev) of
                           Inl e \<Rightarrow> (Rejected e, st1, cs1 @ [TextRequest txt (ev_threadId ev)])
                         | Inr aiResp \<Rightarrow>
                             (case respond env st1 d (ev_threadId ev) aiResp of
                                (m, st2, cs2) \<Rightarrow>
                                  (case send env m of
                                     Inl e \<Rightarrow>
                                       (Rejected e, st2,
                                        cs1 @ [TextRequest txt (ev_threadId ev)] @ cs2 @ [Send m])
                                   | Inr u \<Rightarrow>
                                       (Done, st2,
                                        cs1 @ [TextRequest txt (ev_threadId ev)] @ cs2 @ [Send m])))))))"

section \<open>A concrete environment for the closed examples\<close>

fun containsLiteral :: "string \<Rightarrow> string \<Rightarrow> bool" where
  "containsLiteral p [] = (p = [])"
| "containsLiteral p (c # cs) = (take (length p) (c # cs) = p \<or> containsLiteral p cs)"

definition literalTest :: "string \<Rightarrow> string \<Rightarrow> error + bool" where
  \<comment> \<open>the search of \<open>new RegExp(p, 'i')\<close> in a text when \<open>p\<close> is made of letters and
      digits only: the pattern occurs in the text, letter case apart\<close>
  "literalTest p t = Inr (containsLiteral (toLowerCase p) (toLowerCase t))"

definition exampleBot :: botUser where
  "exampleBot =
     \<lparr>bot_id = ''bot-1'', first_name = Some ''Ada'', middle_name = None,
      last_name = Some ''Lovelace'',
      tag = \<lparr>tag_id = ''tag-1'', tag_slug = ''adabot''\<rparr>, org = \<lparr>org_slug = ''acme''\<rparr>\<rparr>"

definition exampleListener :: listener where
  "exampleListener = \<lparr>bot = exampleBot, distCache = Map.empty\<rparr>"

definition exampleEnv :: env where
  \<comment> \<open>a directory that stores a patch of the tag slug as sent, and answers a patch of
      the user with the user it has\<close>
  "exampleEnv =
     \<lparr>regexTest = literalTest,
      resolveTags = (\<lambda>x. Inr \<lparr>userids = [''bot-1'', ''alice'', ''bob'']\<rparr>),
      textRequest = (\<lambda>t sid. Inr \<lparr>action = ''unknown.intent'',
                                     parameters = \<lparr>param_type = None, param_name = None\<rparr>,
                                     speech = Some ''Hello''\<rparr>),
      patchUser = (\<lambda>i ups. Inr exampleBot),
      patchTag = (\<lambda>i ups. Inr \<lparr>tag_id = i,
                                  tag_slug = (case map_of ups ''slug'' of
                                                Some (Some s) \<Rightarrow> s | _ \<Rightarrow> ''adabot'')\<rparr>),
      send = (\<lambda>m. Inr ()),
      random = 1 / 2,
      typeError = JsError ''TypeError''\<rparr>"

definition exampleEvent :: event where
  \<comment> \<open>a message of alice to a group, with an HTML part before the plain text\<close>
  "exampleEvent =
     \<lparr>ev_source = ''alice'',
      ev_body = Some [\<lparr>part_type = ''text/html'', part_value = Some ''<p>Ada, change your tag</p>''\<rparr>,
                      \<lparr>part_type = ''text/plain'', part_value = Some ''Ada, change your tag''\<rparr>],
      ev_expression = ''@alice + @bob'',
      ev_threadId = ''t1''\<rparr>"

definition tagChangeEnv :: env where
  \<comment> \<open>the NLU service finds a change of the tag and no name\<close>
  "tagChangeEnv =
     exampleEnv\<lparr>textRequest :=
       (\<lambda>t sid. Inr \<lparr>action = ''name.agent.change'',
                       parameters = \<lparr>param_type = Some ''tag'', param_name = None\<rparr>,
                       speech = Some ''On it''\<rparr>)\<rparr>"

definition nluDownEnv :: env where
  \<comment> \<open>the request to the NLU service fails\<close>
  "nluDownEnv = exampleEnv\<lparr>textRequest := (\<lambda>t sid. Inl (JsError ''Error: connect ECONNREFUSED''))\<rparr>"

section \<open>Helper lemmas\<close>




lemma not_upper_lower: "\<not> isUpperAZ (toLowerChar c)"
proof -
  have "(of_char c :: nat) < 256" by simp
  then show ?thesis
    unfolding isUpperAZ_def toLowerChar_def Let_def by auto
qed

lemma not_upper_dot: "\<not> isUpperAZ (CHR ''.'')"
  by (simp add: isUpperAZ_def)

lemma camelToDotted_lower: "x \<in> set (camelToDotted s) \<Longrightarrow> \<not> isUpperAZ x"
  by (induction s) (auto simp: not_upper_lower not_upper_dot split: if_splits)

lemma intentName_lower: "x \<in> set (intentName s) \<Longrightarrow> \<not> isUpperAZ x"
  unfolding intentName_def using camelToDotted_lower[of x s] by (auto dest: in_set_dropD)

lemma handlers_eq:
  "handlers =
     [''name.agent.get'' \<mapsto> HandleNameAgentGet,
      ''name.agent.change'' \<mapsto> HandleNameAgentChange,
      ''name.agent.delete'' \<mapsto> HandleNameAgentDelete]"
proof -
  have k: "intentName ''handleNameAgentGet'' = ''name.agent.get''"
    "intentName ''handleNameAgentChange'' = ''name.agent.change''"
    "intentName ''handleNameAgentDelete'' = ''name.agent.delete''"
    by code_simp+
  show ?thesis
    by (simp add: handlers_def prototype_def startsWith_def k)
qed

lemma handlers_range:
  assumes "findHandler name = Some m"
  shows "m = HandleNameAgentGet \<or> m = HandleNameAgentChange \<or> m = HandleNameAgentDelete"
  using assms unfolding findHandler_def handlers_eq
  by (simp split: if_splits)

section \<open>Addressing policy\<close>




section \<open>Responses with no handler\<close>

text \<open>
  C2, as the code has it. When \<open>findHandler\<close> finds no handler for the action, the
  text of the response is the fulfillment speech of the NLU result when that is a
  non-empty string, and \<open>I have nothing to do with: "<action>"\<close> only when the speech is
  empty or absent; no HTML is set and no call is made.
\<close>

theorem respond_without_handler:
  "findHandler (action aiResp) = None \<Longrightarrow>
   respond env st d tid aiResp =
     (\<lparr>distribution = d, threadId = tid,
       resp_text = (if truthy (speech aiResp) then speech aiResp
                    else Some (nothingToDo (action aiResp))),
       resp_html = None\<rparr>, st, [])"
  by (simp add: respond_def compose_def fallback_def)

theorem respond_without_handler_witness:
  "findHandler ''unknown.intent'' = None \<and>
   respond exampleEnv exampleListener \<lparr>userids = [''bot-1'', ''alice'']\<rparr> ''t1''
     \<lparr>action = ''unknown.intent'', parameters = \<lparr>param_type = None, param_name = None\<rparr>,
      speech = Some []\<rparr> =
     (\<lparr>distribution = \<lparr>userids = [''bot-1'', ''alice'']\<rparr>, threadId = ''t1'',
       resp_text = Some ''I have nothing to do with: \"unknown.intent\"'',
       resp_html = None\<rparr>, exampleListener, [])"
proof -
  have h: "findHandler ''unknown.intent'' = None"
    by code_simp
  show ?thesis
    using h respond_without_handler[of "\<lparr>action = ''unknown.intent'',
        parameters = \<lparr>param_type = None, param_name = None\<rparr>, speech = Some []\<rparr>"
        exampleEnv exampleListener "\<lparr>userids = [''bot-1'', ''alice'']\<rparr>" "''t1''"]
    by (simp add: truthy_def nothingToDo_def)
qed

theorem respond_without_handler_counterexample:
  "findHandler ''unknown.intent'' = None \<and>
   resp_text (fst (respond exampleEnv exampleListener \<lparr>userids = [''bot-1'', ''alice'']\<rparr> ''t1''
     \<lparr>action = ''unknown.intent'', parameters = \<lparr>param_type = None, param_name = None\<rparr>,
      speech = Some ''Hello''\<rparr>)) = Some ''Hello'' \<and>
   resp_text (fst (respond exampleEnv exampleListener \<lparr>userids = [''bot-1'', ''alice'']\<rparr> ''t1''
     \<lparr>action = ''unknown.intent'', parameters = \<lparr>param_type = None, param_name = None\<rparr>,
      speech = Some ''Hello''\<rparr>)) \<noteq> Some (nothingToDo ''unknown.intent'')"
  by code_simp

section \<open>Intent names and the registry\<close>

text \<open>
  C3. For every property of the prototype that starts with \<open>handle\<close>, the dotted form of
  its name is \<open>handle.\<close> followed by the intent key, and the registry maps the key to
  the method. An intent key has no capital letter A-Z. For a name \<open>handle\<close> followed by a
  capital, the key is the dotted form of what follows \<open>handle\<close>, the leading dot
  dropped. In particular \<open>handleNameAgentGet\<close> has the key \<open>name.agent.get\<close>, which
  the registry maps to that method.
\<close>

theorem intentName_registry:
  "(\<forall>(p, m) \<in> set prototype. startsWith p ''handle'' \<longrightarrow>
      camelToDotted p = ''handle.'' @ intentName p \<and> handlers (intentName p) = Some m) \<and>
   (\<forall>x \<in> set (intentName s). \<not> isUpperAZ x) \<and>
   (isUpperAZ c \<longrightarrow> intentName (''handle'' @ c # rest) = toLowerChar c # camelToDotted rest) \<and>
   intentName ''handleNameAgentGet'' = ''name.agent.get'' \<and>
   handlers ''name.agent.get'' = Some HandleNameAgentGet"
proof (intro conjI)
  show "\<forall>(p, m) \<in> set prototype. startsWith p ''handle'' \<longrightarrow>
      camelToDotted p = ''handle.'' @ intentName p \<and> handlers (intentName p) = Some m"
    by code_simp
  show "\<forall>x \<in> set (intentName s). \<not> isUpperAZ x"
    using intentName_lower by blast
  show "isUpperAZ c \<longrightarrow> intentName (''handle'' @ c # rest) = toLowerChar c # camelToDotted rest"
    by (simp add: intentName_def isUpperAZ_def)
  show "intentName ''handleNameAgentGet'' = ''name.agent.get''"
    by code_simp
  show "handlers ''name.agent.get'' = Some HandleNameAgentGet"
    by code_simp
qed

theorem intentName_registry_witness:
  "(''handleNameAgentChange'', HandleNameAgentChange) \<in> set prototype \<and>
   startsWith ''handleNameAgentChange'' ''handle'' \<and>
   isUpperAZ (CHR ''N'') \<and>
   intentName ''handleNameAgentChange'' = ''name.agent.change'' \<and>
   handlers ''name.agent.change'' = Some HandleNameAgentChange \<and>
   \<not> isUpperAZ (CHR ''n'')"
proof -
  have p: "(''handleNameAgentChange'', HandleNameAgentChange) \<in> set prototype"
    by (simp add: prototype_def)
  have s: "startsWith ''handleNameAgentChange'' ''handle''"
    by (simp add: startsWith_def)
  have u: "isUpperAZ (CHR ''N'')"
    by (simp add: isUpperAZ_def)
  have k: "toLowerChar (CHR ''N'') # camelToDotted ''ameAgentChange'' = ''name.agent.change''"
    by code_simp
  have n: "CHR ''n'' \<in> set (intentName ''handleNameAgentChange'')"
    by code_simp
  note t = intentName_registry[of "''handleNameAgentChange''" "CHR ''N''" "''ameAgentChange''"]
  have b: "startsWith ''handleNameAgentChange'' ''handle'' \<longrightarrow>
      camelToDotted ''handleNameAgentChange'' = ''handle.'' @ intentName ''handleNameAgentChange'' \<and>
      handlers (intentName ''handleNameAgentChange'') = Some HandleNameAgentChange"
    using bspec[OF t[THEN conjunct1] p] by (simp only: prod.case)
  note reg0 = mp[OF b s, THEN conjunct2]
  note key0 = mp[OF t[THEN conjunct2, THEN conjunct2, THEN conjunct1] u]
  have key: "intentName ''handleNameAgentChange'' = ''name.agent.change''"
    using key0 k by simp
  have reg: "handlers ''name.agent.change'' = Some HandleNameAgentChange"
    using reg0 by (simp only: key)
  note nl = bspec[OF t[THEN conjunct2, THEN conjunct1] n]
  show ?thesis
    by (intro conjI, rule p, rule s, rule u, rule key, rule reg, rule nl)
qed

section \<open>The delete handler\<close>

lemma patchAndConfirm_calls:
  "snd (snd (patchAndConfirm env st ups)) = [PatchUser (bot_id (bot st)) ups]"
  by (simp add: patchAndConfirm_def updateBotUser_def split: sum.splits)

lemma handleNameAgentDelete_calls:
  "snd (snd (handleNameAgentDelete env st ps)) =
     (if \<not> truthy (param_type ps) \<or> param_type ps = Some ''first name'' \<or>
         param_type ps = Some ''last name'' \<or> param_type ps = Some ''tag''
      then []
      else if param_type ps = Some ''middle name''
      then [PatchUser (bot_id (bot st)) [(''middle_name'', Some [])]]
      else [PatchUser (bot_id (bot st)) []])"
  by (simp add: handleNameAgentDelete_def patchAndConfirm_calls)

text \<open>
  C4, as the code has it. With no \<open>type\<close>, and for the types \<open>first name\<close>,
  \<open>last name\<close> and \<open>tag\<close>, the delete handler returns its refusal, leaves the state as
  it is and makes no call. For \<open>middle name\<close> it makes one update call, whose patch sets
  \<open>middle_name\<close> to the empty string. For any other non-empty type it also makes one
  update call, with an empty patch. So a call whose patch names a field is made for
  \<open>middle name\<close> only.
\<close>

theorem handleNameAgentDelete_updates:
  "(\<not> truthy (param_type ps) \<longrightarrow>
      handleNameAgentDelete env st ps =
        (Inr (RString (''I can'' @ [CHR 0x27] @ ''t delete my whole name silly.'')), st, [])) \<and>
   (param_type ps = Some ''first name'' \<longrightarrow>
      handleNameAgentDelete env st ps = (Inr (RString ''I must have a first name!''), st, [])) \<and>
   (param_type ps = Some ''last name'' \<longrightarrow>
      handleNameAgentDelete env st ps = (Inr (RString ''I must have a last name!''), st, [])) \<and>
   (param_type ps = Some ''tag'' \<longrightarrow>
      handleNameAgentDelete env st ps = (Inr (RString ''I must have a tag!''), st, [])) \<and>
   (param_type ps = Some ''middle name'' \<longrightarrow>
      snd (snd (handleNameAgentDelete env st ps)) =
        [PatchUser (bot_id (bot st)) [(''middle_name'', Some [])]]) \<and>
   (truthy (param_type ps) \<and>
    param_type ps \<notin> {Some ''first name'', Some ''last name'', Some ''middle name'', Some ''tag''} \<longrightarrow>
      snd (snd (handleNameAgentDelete env st ps)) = [PatchUser (bot_id (bot st)) []]) \<and>
   ((\<exists>i k v ups. PatchUser i ((k, v) # ups) \<in> set (snd (snd (handleNameAgentDelete env st ps))))
      = (param_type ps = Some ''middle name''))"
proof (intro conjI)
  show "(\<exists>i k v ups. PatchUser i ((k, v) # ups) \<in> set (snd (snd (handleNameAgentDelete env st ps))))
      = (param_type ps = Some ''middle name'')"
    by (auto simp: handleNameAgentDelete_calls truthy_def)
qed (simp_all add: handleNameAgentDelete_def patchAndConfirm_calls truthy_def)

theorem handleNameAgentDelete_updates_witness:
  "handleNameAgentDelete exampleEnv exampleListener \<lparr>param_type = None, param_name = None\<rparr> =
     (Inr (RString (''I can'' @ [CHR 0x27] @ ''t delete my whole name silly.'')), exampleListener, []) \<and>
   handleNameAgentDelete exampleEnv exampleListener
       \<lparr>param_type = Some ''first name'', param_name = None\<rparr> =
     (Inr (RString ''I must have a first name!''), exampleListener, []) \<and>
   handleNameAgentDelete exampleEnv exampleListener
       \<lparr>param_type = Some ''last name'', param_name = None\<rparr> =
     (Inr (RString ''I must have a last name!''), exampleListener, []) \<and>
   handleNameAgentDelete exampleEnv exampleListener
       \<lparr>param_type = Some ''tag'', param_name = None\<rparr> =
     (Inr (RString ''I must have a tag!''), exampleListener, []) \<and>
   snd (snd (handleNameAgentDelete exampleEnv exampleListener
       \<lparr>param_type = Some ''middle name'', param_name = None\<rparr>)) =
     [PatchUser ''bot-1'' [(''middle_name'', Some [])]] \<and>
   snd (snd (handleNameAgentDelete exampleEnv exampleListener
       \<lparr>param_type = Some ''nickname'', param_name = None\<rparr>)) =
     [PatchUser ''bot-1'' []]"
  using
    handleNameAgentDelete_updates[of "\<lparr>param_type = None, param_name = None\<rparr>"
      exampleEnv exampleListener]
    handleNameAgentDelete_updates[of "\<lparr>param_type = Some ''first name'', param_name = None\<rparr>"
      exampleEnv exampleListener]
    handleNameAgentDelete_updates[of "\<lparr>param_type = Some ''last name'', param_name = None\<rparr>"
      exampleEnv exampleListener]
    handleNameAgentDelete_updates[of "\<lparr>param_type = Some ''tag'', param_name = None\<rparr>"
      exampleEnv exampleListener]
    handleNameAgentDelete_updates[of "\<lparr>param_type = Some ''middle name'', param_name = None\<rparr>"
      exampleEnv exampleListener]
    handleNameAgentDelete_updates[of "\<lparr>param_type = Some ''nickname'', param_name = None\<rparr>"
      exampleEnv exampleListener]
  by (simp add: truthy_def exampleListener_def exampleBot_def)

theorem handleNameAgentDelete_only_middle_counterexample:
  "param_type \<lparr>param_type = Some ''nickname'', param_name = None\<rparr> \<noteq> Some ''middle name'' \<and>
   snd (snd (handleNameAgentDelete exampleEnv exampleListener
       \<lparr>param_type = Some ''nickname'', param_name = None\<rparr>)) =
     [PatchUser ''bot-1'' []]"
  by code_simp

section \<open>The distribution cache\<close>

lemma resolve_begin_end:
  "resolve env st x =
     (case resolveBegin env st x of
        (Hit d, cs) \<Rightarrow> (Inr d, st, cs)
      | (Awaiting a, cs) \<Rightarrow> (case resolveEnd st x a of (r, st1) \<Rightarrow> (r, st1, cs)))"
  by (simp add: resolve_def resolveBegin_def resolveEnd_def split: option.splits sum.splits)








section \<open>The change handler\<close>







lemma toLowerCase_append: "toLowerCase (a @ b) = toLowerCase a @ toLowerCase b"
  by (simp add: toLowerCase_def)


lemma splitLoop_length:
  "length acc < k \<Longrightarrow>
   length acc < length (splitLoop k acc cur s) \<and> length (splitLoop k acc cur s) \<le> k"
proof (induction k acc cur s rule: splitLoop.induct)
  case (1 k acc cur)
  then show ?case by simp
next
  case (2 k acc cur c cs)
  show ?case
  proof (cases "isSpace c")
    case False
    from "2.IH"(2)[OF False "2.prems"] False show ?thesis by simp
  next
    case True
    show ?thesis
    proof (cases "length (acc @ [cur]) = k")
      case full: True
      with True show ?thesis by simp
    next
      case more: False
      with "2.prems" have "length (acc @ [cur]) < k" by simp
      from "2.IH"(1)[OF True more this] True more show ?thesis by simp
    qed
  qed
qed

lemma splitLoop_no_space:
  "list_all spaceFree acc \<Longrightarrow> spaceFree cur \<Longrightarrow> list_all spaceFree (splitLoop k acc cur s)"
proof (induction k acc cur s rule: splitLoop.induct)
  case (1 k acc cur)
  then show ?case by simp
next
  case (2 k acc cur c cs)
  show ?case
  proof (cases "isSpace c")
    case False
    with "2.prems"(2) have "spaceFree (cur @ [c])"
      by (simp add: spaceFree_def)
    from "2.IH"(2)[OF False "2.prems"(1) this] False show ?thesis by simp
  next
    case True
    have e: "spaceFree []" by (simp add: spaceFree_def)
    from "2.prems" have a: "list_all spaceFree (acc @ [cur])" by simp
    show ?thesis
    proof (cases "length (acc @ [cur]) = k")
      case full: True
      with True a show ?thesis by simp
    next
      case more: False
      from "2.IH"(1)[OF True more a e] True more show ?thesis by simp
    qed
  qed
qed

lemma splitSpaces3:
  "1 \<le> length (splitSpaces s 3) \<and> length (splitSpaces s 3) \<le> 3 \<and>
   list_all spaceFree (splitSpaces s 3)"
proof -
  have "length ([] :: string list) < 3" by simp
  from splitLoop_length[OF this, of "[]" s]
  have "0 < length (splitLoop 3 [] [] s)" and "length (splitLoop 3 [] [] s) \<le> 3"
    by simp_all
  then have "1 \<le> length (splitLoop 3 [] [] s)" and "length (splitLoop 3 [] [] s) \<le> 3"
    by (simp_all only: One_nat_def Suc_le_eq)
  moreover have "list_all spaceFree (splitLoop 3 [] [] s)"
    by (rule splitLoop_no_space) (simp_all add: spaceFree_def)
  ultimately show ?thesis
    by (simp only: splitSpaces_def) simp
qed


lemma short_list_cases:
  assumes "1 \<le> length xs" and "length xs \<le> 3"
  obtains a where "xs = [a]" | a b where "xs = [a, b]" | a b c where "xs = [a, b, c]"
proof (cases xs)
  case Nil
  with assms show ?thesis by simp
next
  case (Cons a ys)
  note xs = this
  show ?thesis
  proof (cases ys)
    case Nil
    with xs that(1) show ?thesis by simp
  next
    case (Cons b zs)
    note ys = this
    show ?thesis
    proof (cases zs)
      case Nil
      with xs ys that(2) show ?thesis by simp
    next
      case (Cons c ws)
      with xs ys assms(2) have "xs = [a, b, c]" by simp
      with that(3) show ?thesis by simp
    qed
  qed
qed

lemma change_freeform_calls:
  assumes "\<not> truthy (param_type ps)" and "param_name ps = Some name" and "name \<noteq> []"
  shows "snd (snd (handleNameAgentChange env st ps)) =
     [PatchUser (bot_id (bot st))
        (case splitSpaces name 3 of
           [a] \<Rightarrow> [(''first_name'', Some a)]
         | [a, b] \<Rightarrow> [(''first_name'', Some a), (''last_name'', Some b)]
         | [a, b, c] \<Rightarrow> [(''first_name'', Some a), (''middle_name'', Some b), (''last_name'', Some c)]
         | _ \<Rightarrow> [])]"
proof -
  from splitSpaces3[of name]
  have "1 \<le> length (splitSpaces name 3)" and "length (splitSpaces name 3) \<le> 3"
    by simp_all
  then show ?thesis
  proof (cases rule: short_list_cases)
    case (1 a)
    with assms show ?thesis
      by (simp add: handleNameAgentChange_def patchAndConfirm_calls elemAt_def Let_def)
  next
    case (2 a b)
    with assms show ?thesis
      by (simp add: handleNameAgentChange_def patchAndConfirm_calls elemAt_def Let_def)
  next
    case (3 a b c)
    with assms show ?thesis
      by (simp add: handleNameAgentChange_def patchAndConfirm_calls elemAt_def Let_def)
  qed
qed


lemma splitLoop_word:
  "spaceFree w \<Longrightarrow> splitLoop k acc cur (w @ rest) = splitLoop k acc (cur @ w) rest"
proof (induction w arbitrary: cur)
  case Nil
  show ?case by simp
next
  case (Cons c w)
  from Cons.prems have c: "\<not> isSpace c" and w: "spaceFree w"
    by (simp_all add: spaceFree_def)
  from Cons.IH[OF w, of "cur @ [c]"] c show ?case
    by simp
qed

lemma splitLoop_gap:
  assumes "gap \<noteq> []" and "list_all isSpace gap" and "rest = [] \<or> \<not> isSpace (hd rest)"
  shows "splitLoop k acc cur (gap @ rest) =
     (if length (acc @ [cur]) = k then acc @ [cur] else splitLoop k (acc @ [cur]) [] rest)"
proof -
  from assms(1) obtain c g where g: "gap = c # g"
    by (cases gap) auto
  from assms(3) have "dropWhile isSpace rest = rest"
    by (cases rest) auto
  moreover from assms(2) g have "\<forall>x \<in> set g. isSpace x" and c: "isSpace c"
    by (simp_all add: list_all_iff)
  ultimately have "dropWhile isSpace (g @ rest) = rest"
    by (simp add: dropWhile_append2)
  with g c show ?thesis
    by simp
qed

lemma joinPieces_head:
  assumes "spaceFree w" and "w \<noteq> [] \<or> sws = []"
  shows "joinPieces w sws = [] \<or> \<not> isSpace (hd (joinPieces w sws))"
proof (cases w)
  case Nil
  with assms(2) show ?thesis by simp
next
  case (Cons c w')
  with assms(1) have "\<not> isSpace c"
    by (simp add: spaceFree_def)
  with Cons show ?thesis
    by (cases sws) auto
qed

lemma splitLoop_pieces:
  "spaceFree w \<Longrightarrow> gapped sws \<Longrightarrow> length acc < k \<Longrightarrow>
   splitLoop k acc cur (joinPieces w sws) = take k (acc @ (cur @ w) # map snd sws)"
proof (induction sws arbitrary: w acc cur)
  case Nil
  from splitLoop_word[OF Nil.prems(1), of k acc cur "[]"] Nil.prems(3) show ?case
    by simp
next
  case (Cons a sws)
  obtain gap w1 where a: "a = (gap, w1)"
    by (cases a)
  from Cons.prems(2) a have gap: "gap \<noteq> []" "list_all isSpace gap"
    and w1: "spaceFree w1" and ne: "w1 \<noteq> [] \<or> sws = []" and rest: "gapped sws"
    by simp_all
  note hd = joinPieces_head[OF w1 ne]
  have "splitLoop k acc cur (joinPieces w (a # sws)) =
        splitLoop k acc (cur @ w) (gap @ joinPieces w1 sws)"
    using splitLoop_word[OF Cons.prems(1), of k acc cur "gap @ joinPieces w1 sws"] a by simp
  also have "\<dots> = (if length (acc @ [cur @ w]) = k then acc @ [cur @ w]
                   else splitLoop k (acc @ [cur @ w]) [] (joinPieces w1 sws))"
    by (rule splitLoop_gap[OF gap hd])
  also have "\<dots> = take k (acc @ (cur @ w) # map snd (a # sws))"
  proof (cases "length (acc @ [cur @ w]) = k")
    case True
    then show ?thesis by auto
  next
    case False
    with Cons.prems(3) have "length (acc @ [cur @ w]) < k" by simp
    from Cons.IH[OF w1 rest this, of "[]"] False a show ?thesis by simp
  qed
  finally show ?case .
qed

lemma splitSpaces_pieces:
  assumes "spaceFree w" and "gapped sws" and "0 < k"
  shows "splitSpaces (joinPieces w sws) k = take k (w # map snd sws)"
  using splitLoop_pieces[OF assms(1,2), of "[]" k "[]"] assms(3)
  by (simp add: splitSpaces_def)

lemma joinPieces_empty_head:
  assumes "gapped sws" and "sws \<noteq> []"
  shows "joinPieces [] sws \<noteq> [] \<and> isSpace (hd (joinPieces [] sws))"
proof -
  from assms(2) obtain gap w1 rest where s: "sws = (gap, w1) # rest"
    by (cases sws) auto
  with assms(1) have "gap \<noteq> []" and "list_all isSpace gap"
    by simp_all
  then obtain c g where "gap = c # g" and "isSpace c"
    by (cases gap) auto
  with s show ?thesis by simp
qed

lemma pieces_exist: "\<exists>w sws. s = joinPieces w sws \<and> spaceFree w \<and> gapped sws"
proof (induction s rule: length_induct)
  case (1 s)
  let ?w = "takeWhile (\<lambda>c. \<not> isSpace c) s"
  let ?r = "dropWhile (\<lambda>c. \<not> isSpace c) s"
  have s: "s = ?w @ ?r" by simp
  have w: "spaceFree ?w"
    by (auto simp: spaceFree_def dest: set_takeWhileD)
  show ?case
  proof (cases "?r = []")
    case True
    with s have "s = joinPieces ?w []" by simp
    with w show ?thesis
      by (intro exI[of _ ?w] exI[of _ "[]"]) simp
  next
    case False
    then have sp: "isSpace (hd ?r)"
      using hd_dropWhile[of "\<lambda>c. \<not> isSpace c" s] by simp
    let ?gap = "takeWhile isSpace ?r"
    let ?t = "dropWhile isSpace ?r"
    have r: "?r = ?gap @ ?t" by simp
    from False sp have gap: "?gap \<noteq> []"
      by (cases ?r) auto
    have all: "list_all isSpace ?gap"
      by (auto simp: list_all_iff dest: set_takeWhileD)
    have "length ?t \<le> length ?r"
      by (rule length_dropWhile_le)
    moreover have "length ?r \<le> length s"
      by (rule length_dropWhile_le)
    moreover have "length ?r = length ?gap + length ?t"
      by (metis length_append takeWhile_dropWhile_id)
    with gap have "length ?t < length ?r"
      by simp
    moreover note \<open>length ?t < length ?r\<close>
    ultimately have "length ?t < length s" by simp
    with 1 obtain w1 sws where t: "?t = joinPieces w1 sws" and w1: "spaceFree w1"
      and g: "gapped sws"
      by blast
    have ne: "w1 \<noteq> [] \<or> sws = []"
    proof (rule ccontr)
      assume "\<not> (w1 \<noteq> [] \<or> sws = [])"
      then have e: "w1 = []" and n: "sws \<noteq> []" by simp_all
      from joinPieces_empty_head[OF g n] t e
      have "?t \<noteq> []" and "isSpace (hd ?t)" by simp_all
      with hd_dropWhile[of isSpace ?r] show False by simp
    qed
    from s r t have "s = joinPieces ?w ((?gap, w1) # sws)"
      by (metis joinPieces.simps(2))
    moreover from gap all w1 ne g have "gapped ((?gap, w1) # sws)"
      by simp
    ultimately show ?thesis
      using w by blast
  qed
qed



text \<open>
  C7, as the code has it. With no \<open>type\<close> and a non-empty \<open>name\<close>, the name is split
  at its runs of white space and the first three pieces are kept; a piece is empty where
  the name begins or ends with white space, and pieces after the third are dropped. Every
  name is a first piece followed by gaps and pieces, and for every such reading of the
  name the handler makes one update call whose patch follows the number of pieces: one
  piece sets \<open>first_name\<close> only; two set \<open>first_name\<close> and \<open>last_name\<close>; three or
  more set \<open>first_name\<close>, \<open>middle_name\<close> and \<open>last_name\<close> to the first three. So for
  one, two or three words with white space between them only, the fields are the words;
  \<open>Ada Lovelace\<close> gives \<open>first_name\<close> \<open>Ada\<close> and \<open>last_name\<close> \<open>Lovelace\<close>.
\<close>

theorem handleNameAgentChange_freeform:
  assumes "\<not> truthy (param_type ps)" and "param_name ps = Some name" and "name \<noteq> []"
  shows "(\<exists>w sws. name = joinPieces w sws \<and> spaceFree w \<and> gapped sws) \<and>
         (\<forall>w sws. name = joinPieces w sws \<and> spaceFree w \<and> gapped sws \<longrightarrow>
            splitSpaces name 3 = take 3 (w # map snd sws) \<and>
            snd (snd (handleNameAgentChange env st ps)) =
              [PatchUser (bot_id (bot st))
                 (case sws of
                    [] \<Rightarrow> [(''first_name'', Some w)]
                  | [(g1, w1)] \<Rightarrow> [(''first_name'', Some w), (''last_name'', Some w1)]
                  | (g1, w1) # (g2, w2) # rest \<Rightarrow>
                      [(''first_name'', Some w), (''middle_name'', Some w1),
                       (''last_name'', Some w2)])]) \<and>
         splitSpaces ''Ada Lovelace'' 3 = [''Ada'', ''Lovelace'']"
proof (intro conjI allI impI)
  show "\<exists>w sws. name = joinPieces w sws \<and> spaceFree w \<and> gapped sws"
    by (rule pieces_exist)
  show "splitSpaces ''Ada Lovelace'' 3 = [''Ada'', ''Lovelace'']"
    by code_simp
next
  fix w sws
  assume h: "name = joinPieces w sws \<and> spaceFree w \<and> gapped sws"
  then have n: "name = joinPieces w sws" and w: "spaceFree w" and g: "gapped sws"
    by simp_all
  have "splitSpaces (joinPieces w sws) 3 = take 3 (w # map snd sws)"
    by (rule splitSpaces_pieces[OF w g]) simp
  with n show split: "splitSpaces name 3 = take 3 (w # map snd sws)"
    by simp
  note calls = change_freeform_calls[OF assms, of env st]
  show "snd (snd (handleNameAgentChange env st ps)) =
              [PatchUser (bot_id (bot st))
                 (case sws of
                    [] \<Rightarrow> [(''first_name'', Some w)]
                  | [(g1, w1)] \<Rightarrow> [(''first_name'', Some w), (''last_name'', Some w1)]
                  | (g1, w1) # (g2, w2) # rest \<Rightarrow>
                      [(''first_name'', Some w), (''middle_name'', Some w1),
                       (''last_name'', Some w2)])]"
  proof (cases sws)
    case Nil
    with split have "splitSpaces name 3 = [w]" by simp
    with calls Nil show ?thesis by simp
  next
    case (Cons a rest1)
    obtain g1 w1 where a: "a = (g1, w1)" by (cases a)
    show ?thesis
    proof (cases rest1)
      case Nil
      with split Cons a have "splitSpaces name 3 = [w, w1]" by simp
      with calls Cons a Nil show ?thesis by simp
    next
      case (Cons b rest2)
      obtain g2 w2 where b: "b = (g2, w2)" by (cases b)
      from split \<open>sws = a # rest1\<close> a Cons b have "splitSpaces name 3 = [w, w1, w2]" by simp
      with calls \<open>sws = a # rest1\<close> a Cons b show ?thesis by simp
    qed
  qed
qed

theorem handleNameAgentChange_freeform_witness:
  "snd (snd (handleNameAgentChange exampleEnv exampleListener
          \<lparr>param_type = None, param_name = Some ''Ada Lovelace''\<rparr>)) =
     [PatchUser ''bot-1'' [(''first_name'', Some ''Ada''), (''last_name'', Some ''Lovelace'')]] \<and>
   snd (snd (handleNameAgentChange exampleEnv exampleListener
          \<lparr>param_type = None, param_name = Some ''Ada''\<rparr>)) =
     [PatchUser ''bot-1'' [(''first_name'', Some ''Ada'')]] \<and>
   snd (snd (handleNameAgentChange exampleEnv exampleListener
          \<lparr>param_type = None, param_name = Some ''Augusta  Ada Lovelace''\<rparr>)) =
     [PatchUser ''bot-1''
        [(''first_name'', Some ''Augusta''), (''middle_name'', Some ''Ada''),
         (''last_name'', Some ''Lovelace'')]]"
proof -
  have id: "bot_id (bot exampleListener) = ''bot-1''"
    by (simp add: exampleListener_def exampleBot_def)
  have t: "\<not> truthy (param_type \<lparr>param_type = None, param_name = Some n\<rparr>)" for n
    by (simp add: truthy_def)
  have p: "param_name \<lparr>param_type = None, param_name = Some n\<rparr> = Some n" for n
    by simp
  have free: "spaceFree ''Ada''" "spaceFree ''Augusta''"
    by code_simp+
  have g2: "gapped [('' '', ''Lovelace'')]"
    by code_simp
  have g3: "gapped [(''  '', ''Ada''), ('' '', ''Lovelace'')]"
    by code_simp
  have j1: "''Ada'' = joinPieces ''Ada'' []"
    and j2: "''Ada Lovelace'' = joinPieces ''Ada'' [('' '', ''Lovelace'')]"
    and j3: "''Augusta  Ada Lovelace'' =
             joinPieces ''Augusta'' [(''  '', ''Ada''), ('' '', ''Lovelace'')]"
    by simp_all
  have n: "''Ada'' \<noteq> []" "''Ada Lovelace'' \<noteq> []" "''Augusta  Ada Lovelace'' \<noteq> []"
    by simp_all
  note i1 = handleNameAgentChange_freeform[OF t p n(1), of exampleEnv exampleListener,
      THEN conjunct2, THEN conjunct1, THEN spec, THEN spec, THEN mp,
      OF conjI[OF j1 conjI[OF free(1) gapped.simps(1)[THEN iffD2, OF TrueI]]], THEN conjunct2]
  note i2 = handleNameAgentChange_freeform[OF t p n(2), of exampleEnv exampleListener,
      THEN conjunct2, THEN conjunct1, THEN spec, THEN spec, THEN mp,
      OF conjI[OF j2 conjI[OF free(1) g2]], THEN conjunct2]
  note i3 = handleNameAgentChange_freeform[OF t p n(3), of exampleEnv exampleListener,
      THEN conjunct2, THEN conjunct1, THEN spec, THEN spec, THEN mp,
      OF conjI[OF j3 conjI[OF free(2) g3]], THEN conjunct2]
  have a: "snd (snd (handleNameAgentChange exampleEnv exampleListener
          \<lparr>param_type = None, param_name = Some ''Ada Lovelace''\<rparr>)) =
     [PatchUser ''bot-1'' [(''first_name'', Some ''Ada''), (''last_name'', Some ''Lovelace'')]]"
    using i2 by (simp add: id)
  have b: "snd (snd (handleNameAgentChange exampleEnv exampleListener
          \<lparr>param_type = None, param_name = Some ''Ada''\<rparr>)) =
     [PatchUser ''bot-1'' [(''first_name'', Some ''Ada'')]]"
    using i1 by (simp add: id)
  have c: "snd (snd (handleNameAgentChange exampleEnv exampleListener
          \<lparr>param_type = None, param_name = Some ''Augusta  Ada Lovelace''\<rparr>)) =
     [PatchUser ''bot-1''
        [(''first_name'', Some ''Augusta''), (''middle_name'', Some ''Ada''),
         (''last_name'', Some ''Lovelace'')]]"
    using i3 by (simp add: id)
  show ?thesis
    by (intro conjI, rule a, rule b, rule c)
qed

text \<open>
  The name \<open>Ada \<close>, one word and a blank after it, is split into \<open>Ada\<close> and the empty
  string: the patch sets \<open>last_name\<close> to the empty string, not \<open>first_name\<close> only.
\<close>

theorem handleNameAgentChange_trailing_blank_counterexample:
  "splitSpaces ''Ada '' 3 = [''Ada'', []] \<and>
   snd (snd (handleNameAgentChange exampleEnv exampleListener
          \<lparr>param_type = None, param_name = Some ''Ada ''\<rparr>)) =
     [PatchUser ''bot-1'' [(''first_name'', Some ''Ada''), (''last_name'', Some [])]]"
  by code_simp

section \<open>The composed response and what is sent\<close>

lemma resolve_no_send: "Send m \<notin> set (snd (snd (resolve env st x)))"
  by (simp add: resolve_def split: option.splits sum.splits)

lemma change_no_send: "Send m \<notin> set (snd (snd (handleNameAgentChange env st ps)))"
  by (simp add: handleNameAgentChange_def patchAndConfirm_calls updateBotTag_def Let_def
      split: option.splits sum.splits)

lemma delete_no_send: "Send m \<notin> set (snd (snd (handleNameAgentDelete env st ps)))"
  by (simp add: handleNameAgentDelete_calls)

lemma invoke_no_send: "Send m \<notin> set (snd (snd (invoke h env st ps)))"
  by (cases h) (simp_all add: change_no_send delete_no_send)

lemma fallback_truthy: "truthy (resp_text (fallback act m))"
  by (simp add: fallback_def truthy_def nothingToDo_def)

lemma compose_truthy: "truthy (resp_text (fst (compose run env st d tid aiResp ih)))"
  by (simp add: compose_def Let_def fallback_truthy split: option.splits prod.splits sum.splits)

lemma respond_no_send: "Send m \<notin> set (snd (snd (respond env st d tid aiResp)))"
proof (cases "findHandler (action aiResp)")
  case None
  then show ?thesis
    by (simp add: respond_def compose_def)
next
  case (Some h)
  obtain r st1 cs where i: "invoke h env st (parameters aiResp) = (r, st1, cs)"
    by (cases "invoke h env st (parameters aiResp)")
  with invoke_no_send[of m h env st "parameters aiResp"] have "Send m \<notin> set cs"
    by simp
  with Some i show ?thesis
    by (cases r) (simp_all add: respond_def compose_def Let_def)
qed

lemma onMessage_reaches_nlu:
  assumes "ev_body ev = Some parts" and "firstTextPlain parts = Some t" and "t \<noteq> []"
    and "resolve env st (ev_expression ev) = (Inr d, st1, cs1)"
    and "needsResponse env botId st1 (ev_source ev) d t = Inr (Some True)"
  shows "onMessage env botId st ev =
     (case textRequest env t (ev_threadId ev) of
        Inl e \<Rightarrow> (Rejected e, st1, cs1 @ [TextRequest t (ev_threadId ev)])
      | Inr aiResp \<Rightarrow>
          (case respond env st1 d (ev_threadId ev) aiResp of
             (m, st2, cs2) \<Rightarrow>
               (case send env m of
                  Inl e \<Rightarrow> (Rejected e, st2, cs1 @ [TextRequest t (ev_threadId ev)] @ cs2 @ [Send m])
                | Inr u \<Rightarrow> (Done, st2, cs1 @ [TextRequest t (ev_threadId ev)] @ cs2 @ [Send m]))))"
  using assms by (simp add: onMessage_def)

lemma onMessage_sent_truthy:
  assumes "Send m \<in> set (snd (snd (onMessage env botId st ev)))"
  shows "truthy (resp_text m)"
proof -
  let ?t = "case ev_body ev of None \<Rightarrow> None | Some parts \<Rightarrow> firstTextPlain parts"
  show ?thesis
  proof (cases ?t)
    case None
    with assms show ?thesis by (simp add: onMessage_def)
  next
    case (Some t)
    note t = this
    show ?thesis
    proof (cases "t = []")
      case True
      with assms t show ?thesis by (simp add: onMessage_def)
    next
      case False
      obtain r st1 cs1 where res: "resolve env st (ev_expression ev) = (r, st1, cs1)"
        by (cases "resolve env st (ev_expression ev)")
      with resolve_no_send[of m env st "ev_expression ev"] have ns1: "Send m \<notin> set cs1"
        by simp
      show ?thesis
      proof (cases r)
        case (Inl e)
        with assms t False res ns1 show ?thesis by (simp add: onMessage_def)
      next
        case (Inr d)
        note d = this
        show ?thesis
        proof (cases "needsResponse env botId st1 (ev_source ev) d t")
          case (Inl e)
          with assms t False res ns1 d show ?thesis by (simp add: onMessage_def)
        next
          case (Inr nr)
          note nr = this
          show ?thesis
          proof (cases "nr = Some True")
            case False
            with assms t \<open>t \<noteq> []\<close> res ns1 d nr show ?thesis by (simp add: onMessage_def)
          next
            case True
            note yes = this
            show ?thesis
            proof (cases "textRequest env t (ev_threadId ev)")
              case (Inl e)
              with assms t \<open>t \<noteq> []\<close> res ns1 d nr yes show ?thesis by (simp add: onMessage_def)
            next
              case (Inr aiResp)
              obtain m' st2 cs2 where rp: "respond env st1 d (ev_threadId ev) aiResp = (m', st2, cs2)"
                by (cases "respond env st1 d (ev_threadId ev) aiResp")
              with respond_no_send[of m env st1 d "ev_threadId ev" aiResp] have ns2: "Send m \<notin> set cs2"
                by simp
              from rp have "m' = fst (respond env st1 d (ev_threadId ev) aiResp)"
                by simp
              then have tr: "truthy (resp_text m')"
                by (simp add: respond_def compose_truthy)
              from assms t \<open>t \<noteq> []\<close> res d nr yes Inr rp ns1 ns2 have "m = m'"
                by (cases "send env m'") (simp_all add: onMessage_def)
              with tr show ?thesis by simp
            qed
          qed
        qed
      qed
    qed
  qed
qed

lemma onMessage_calls_after_nlu:
  assumes "ev_body ev = Some parts" and "firstTextPlain parts = Some t" and "t \<noteq> []"
    and "resolve env st (ev_expression ev) = (Inr d, st1, cs1)"
    and "needsResponse env botId st1 (ev_source ev) d t = Inr (Some True)"
    and "textRequest env t (ev_threadId ev) = Inr aiResp"
    and "respond env st1 d (ev_threadId ev) aiResp = (m, st2, cs2)"
  shows "snd (snd (onMessage env botId st ev)) =
     cs1 @ [TextRequest t (ev_threadId ev)] @ cs2 @ [Send m]"
  unfolding onMessage_reaches_nlu[OF assms(1-5)] assms(6)
  using assms(7) by (cases "send env m") simp_all

lemma compose_failure:
  assumes "run h env st (parameters aiResp) = (Inl e, st1, cs)"
  shows "compose run env st d tid aiResp (Some h) =
     (\<lparr>distribution = d, threadId = tid,
       resp_text = Some (''Affraid I can'' @ [CHR 0x27] @ ''t do that boss...'' @ [CHR 0x0A]
                          @ ''('' @ description e @ '')''),
       resp_html = Some (''Affraid I can'' @ [CHR 0x27] @ ''t do that boss...<br/><pre>''
                          @ description e @ ''</pre>'')\<rparr>, st1, cs)"
  using assms by (simp add: compose_def Let_def apology_def fallback_def truthy_def)

text \<open>
  C8. When a message reaches the NLU service, the action has a handler and the handler
  fails with an error \<open>e\<close>, the listener still calls \<open>send\<close>, last, with a response whose
  text is \<open>Affraid I can't do that boss...\<close>, a line feed and the description of \<open>e\<close> in
  parentheses, and whose HTML is the same apology, \<open><br/>\<close> and the description of \<open>e\<close>
  inside a \<open>pre\<close> element.
\<close>

theorem handler_failure_apology:
  assumes "ev_body ev = Some parts" and "firstTextPlain parts = Some t" and "t \<noteq> []"
    and "resolve env st (ev_expression ev) = (Inr d, st1, cs1)"
    and "needsResponse env botId st1 (ev_source ev) d t = Inr (Some True)"
    and "textRequest env t (ev_threadId ev) = Inr aiResp"
    and "findHandler (action aiResp) = Some h"
    and "invoke h env st1 (parameters aiResp) = (Inl e, st2, cs2)"
  shows "snd (snd (onMessage env botId st ev)) =
     cs1 @ [TextRequest t (ev_threadId ev)] @ cs2 @
     [Send \<lparr>distribution = d, threadId = ev_threadId ev,
            resp_text = Some (''Affraid I can'' @ [CHR 0x27] @ ''t do that boss...'' @ [CHR 0x0A]
                               @ ''('' @ description e @ '')''),
            resp_html = Some (''Affraid I can'' @ [CHR 0x27] @ ''t do that boss...<br/><pre>''
                               @ description e @ ''</pre>'')\<rparr>]"
proof -
  note r = compose_failure[where run = invoke and d = d and tid = "ev_threadId ev", OF assms(8)]
  have "respond env st1 d (ev_threadId ev) aiResp =
     (\<lparr>distribution = d, threadId = ev_threadId ev,
       resp_text = Some (''Affraid I can'' @ [CHR 0x27] @ ''t do that boss...'' @ [CHR 0x0A]
                          @ ''('' @ description e @ '')''),
       resp_html = Some (''Affraid I can'' @ [CHR 0x27] @ ''t do that boss...<br/><pre>''
                          @ description e @ ''</pre>'')\<rparr>, st2, cs2)"
    unfolding respond_def assms(7) by (rule r)
  from onMessage_calls_after_nlu[OF assms(1-6) this] show ?thesis .
qed

lemma example_reaches_nlu:
  "ev_body exampleEvent =
     Some [\<lparr>part_type = ''text/html'', part_value = Some ''<p>Ada, change your tag</p>''\<rparr>,
           \<lparr>part_type = ''text/plain'', part_value = Some ''Ada, change your tag''\<rparr>]"
  "firstTextPlain
     [\<lparr>part_type = ''text/html'', part_value = Some ''<p>Ada, change your tag</p>''\<rparr>,
      \<lparr>part_type = ''text/plain'', part_value = Some ''Ada, change your tag''\<rparr>] =
     Some ''Ada, change your tag''"
  "''Ada, change your tag'' \<noteq> []"
  "ev_expression exampleEvent = ''@alice + @bob''"
  "ev_threadId exampleEvent = ''t1''"
  "ev_source exampleEvent = ''alice''"
  by (simp_all add: exampleEvent_def)

lemma example_resolve:
  "resolveTags env = resolveTags exampleEnv \<Longrightarrow>
   resolve env exampleListener ''@alice + @bob'' =
     (Inr \<lparr>userids = [''bot-1'', ''alice'', ''bob'']\<rparr>,
      exampleListener\<lparr>distCache :=
        (distCache exampleListener)(''@alice + @bob'' \<mapsto> \<lparr>userids = [''bot-1'', ''alice'', ''bob'']\<rparr>)\<rparr>,
      [ResolveTags ''@alice + @bob''])"
  by (simp add: resolve_def exampleEnv_def exampleListener_def)

lemma example_needsResponse:
  assumes "regexTest env = literalTest"
  shows "needsResponse env ''bot-1''
     (exampleListener\<lparr>distCache :=
        (distCache exampleListener)(''@alice + @bob'' \<mapsto> \<lparr>userids = [''bot-1'', ''alice'', ''bob'']\<rparr>)\<rparr>)
     ''alice'' \<lparr>userids = [''bot-1'', ''alice'', ''bob'']\<rparr> ''Ada, change your tag'' = Inr (Some True)"
proof -
  have m: "literalTest ''Ada'' ''Ada, change your tag'' = Inr True"
    by code_simp
  have n: "length (removeAll ''alice'' (removeAll ''bot-1'' (remdups [''bot-1'', ''alice'', ''bob'']))) \<noteq> 0"
    by simp
  show ?thesis
    unfolding needsResponse_def Let_def using n
    by (simp add: assms exampleListener_def exampleBot_def regexSource_def m)
qed

theorem handler_failure_apology_witness:
  "snd (snd (onMessage tagChangeEnv ''bot-1'' exampleListener exampleEvent)) =
     [ResolveTags ''@alice + @bob'',
      TextRequest ''Ada, change your tag'' ''t1'',
      Send \<lparr>distribution = \<lparr>userids = [''bot-1'', ''alice'', ''bob'']\<rparr>, threadId = ''t1'',
            resp_text = Some (''Affraid I can'' @ [CHR 0x27] @ ''t do that boss...'' @ [CHR 0x0A]
                               @ ''(TypeError)''),
            resp_html = Some (''Affraid I can'' @ [CHR 0x27]
                               @ ''t do that boss...<br/><pre>TypeError</pre>'')\<rparr>]"
proof -
  let ?d = "\<lparr>userids = [''bot-1'', ''alice'', ''bob'']\<rparr>"
  let ?st1 = "exampleListener\<lparr>distCache := (distCache exampleListener)(''@alice + @bob'' \<mapsto> ?d)\<rparr>"
  let ?ai = "\<lparr>action = ''name.agent.change'',
              parameters = \<lparr>param_type = Some ''tag'', param_name = None\<rparr>,
              speech = Some ''On it''\<rparr>"
  have h4: "resolve tagChangeEnv exampleListener (ev_expression exampleEvent) =
      (Inr ?d, ?st1, [ResolveTags ''@alice + @bob''])"
    unfolding example_reaches_nlu by (rule example_resolve) (simp add: tagChangeEnv_def)
  have h5: "needsResponse tagChangeEnv ''bot-1'' ?st1 (ev_source exampleEvent) ?d
      ''Ada, change your tag'' = Inr (Some True)"
    unfolding example_reaches_nlu
    by (rule example_needsResponse) (simp add: tagChangeEnv_def exampleEnv_def)
  have h6: "textRequest tagChangeEnv ''Ada, change your tag'' (ev_threadId exampleEvent) = Inr ?ai"
    by (simp add: tagChangeEnv_def)
  have h7: "findHandler (action ?ai) = Some HandleNameAgentChange"
    by code_simp
  have h8: "invoke HandleNameAgentChange tagChangeEnv ?st1 (parameters ?ai) =
      (Inl (JsError ''TypeError''), ?st1, [])"
    by (simp add: handleNameAgentChange_def truthy_def tagChangeEnv_def exampleEnv_def)
  note w = handler_failure_apology[OF example_reaches_nlu(1-3) h4 h5 h6 h7 h8]
  show ?thesis
    using w unfolding example_reaches_nlu by simp
qed

text \<open>
  C9. When a message reaches the NLU request and the request fails with an error \<open>e\<close>,
  the listener ends there, rejected with \<open>e\<close>: the last call is the request, and
  \<open>send\<close> is not called.
\<close>

theorem nlu_failure_no_send:
  assumes "ev_body ev = Some parts" and "firstTextPlain parts = Some t" and "t \<noteq> []"
    and "resolve env st (ev_expression ev) = (Inr d, st1, cs1)"
    and "needsResponse env botId st1 (ev_source ev) d t = Inr (Some True)"
    and "textRequest env t (ev_threadId ev) = Inl e"
  shows "onMessage env botId st ev = (Rejected e, st1, cs1 @ [TextRequest t (ev_threadId ev)]) \<and>
         (\<forall>m. Send m \<notin> set (snd (snd (onMessage env botId st ev))))"
proof -
  have run: "onMessage env botId st ev = (Rejected e, st1, cs1 @ [TextRequest t (ev_threadId ev)])"
    unfolding onMessage_reaches_nlu[OF assms(1-5)] assms(6) by simp
  have "Send m \<notin> set cs1" for m
    using resolve_no_send[of m env st "ev_expression ev"] assms(4) by simp
  with run show ?thesis
    by simp
qed

theorem nlu_failure_no_send_witness:
  "onMessage nluDownEnv ''bot-1'' exampleListener exampleEvent =
     (Rejected (JsError ''Error: connect ECONNREFUSED''),
      exampleListener\<lparr>distCache :=
        (distCache exampleListener)(''@alice + @bob'' \<mapsto> \<lparr>userids = [''bot-1'', ''alice'', ''bob'']\<rparr>)\<rparr>,
      [ResolveTags ''@alice + @bob'', TextRequest ''Ada, change your tag'' ''t1'']) \<and>
   Send \<lparr>distribution = \<lparr>userids = [''bot-1'', ''alice'', ''bob'']\<rparr>, threadId = ''t1'',
         resp_text = Some ''On it'', resp_html = None\<rparr>
     \<notin> set (snd (snd (onMessage nluDownEnv ''bot-1'' exampleListener exampleEvent)))"
proof -
  let ?d = "\<lparr>userids = [''bot-1'', ''alice'', ''bob'']\<rparr>"
  let ?st1 = "exampleListener\<lparr>distCache := (distCache exampleListener)(''@alice + @bob'' \<mapsto> ?d)\<rparr>"
  have h4: "resolve nluDownEnv exampleListener (ev_expression exampleEvent) =
      (Inr ?d, ?st1, [ResolveTags ''@alice + @bob''])"
    unfolding example_reaches_nlu by (rule example_resolve) (simp add: nluDownEnv_def)
  have h5: "needsResponse nluDownEnv ''bot-1'' ?st1 (ev_source exampleEvent) ?d
      ''Ada, change your tag'' = Inr (Some True)"
    unfolding example_reaches_nlu
    by (rule example_needsResponse) (simp add: nluDownEnv_def exampleEnv_def)
  have h6: "textRequest nluDownEnv ''Ada, change your tag'' (ev_threadId exampleEvent) =
      Inl (JsError ''Error: connect ECONNREFUSED'')"
    by (simp add: nluDownEnv_def)
  note w = nlu_failure_no_send[OF example_reaches_nlu(1-3) h4 h5 h6]
  have a: "onMessage nluDownEnv ''bot-1'' exampleListener exampleEvent =
     (Rejected (JsError ''Error: connect ECONNREFUSED''), ?st1,
      [ResolveTags ''@alice + @bob'', TextRequest ''Ada, change your tag'' ''t1''])"
    using w[THEN conjunct1] unfolding example_reaches_nlu by simp
  note b = w[THEN conjunct2, THEN spec, of "\<lparr>distribution = ?d, threadId = ''t1'',
         resp_text = Some ''On it'', resp_html = None\<rparr>"]
  show ?thesis
    by (intro conjI, rule a, rule b)
qed

text \<open>
  C10. Whatever the handler does (returns a string, nothing or an object, or fails) and
  also when there is no handler, the text of the composed response is a non-empty
  string. A handler that returns the empty string, and a handler that returns nothing
  when the fulfillment speech is empty or absent, give the text
  \<open>I have nothing to do with: "<action>"\<close>. Every response the listener sends has a
  non-empty text.
\<close>

theorem composed_text_not_empty:
  "truthy (resp_text (fst (compose run env st d tid aiResp ih))) \<and>
   (run h env st (parameters aiResp) = (Inr (RString []), st1, cs) \<longrightarrow>
      resp_text (fst (compose run env st d tid aiResp (Some h))) =
        Some (nothingToDo (action aiResp))) \<and>
   (\<not> truthy (speech aiResp) \<and> run h env st (parameters aiResp) = (Inr RUndefined, st1, cs) \<longrightarrow>
      resp_text (fst (compose run env st d tid aiResp (Some h))) =
        Some (nothingToDo (action aiResp))) \<and>
   (\<forall>m. Send m \<in> set (snd (snd (onMessage env botId st0 ev))) \<longrightarrow> truthy (resp_text m)) \<and>
   nothingToDo (action aiResp) \<noteq> []"
proof (intro conjI)
  show "truthy (resp_text (fst (compose run env st d tid aiResp ih)))"
    by (rule compose_truthy)
  show "run h env st (parameters aiResp) = (Inr (RString []), st1, cs) \<longrightarrow>
      resp_text (fst (compose run env st d tid aiResp (Some h))) =
        Some (nothingToDo (action aiResp))"
    by (simp add: compose_def Let_def assign_def fallback_def truthy_def)
  show "\<not> truthy (speech aiResp) \<and> run h env st (parameters aiResp) = (Inr RUndefined, st1, cs) \<longrightarrow>
      resp_text (fst (compose run env st d tid aiResp (Some h))) =
        Some (nothingToDo (action aiResp))"
    by (simp add: compose_def Let_def assign_def fallback_def)
  show "\<forall>m. Send m \<in> set (snd (snd (onMessage env botId st0 ev))) \<longrightarrow> truthy (resp_text m)"
    using onMessage_sent_truthy by blast
  show "nothingToDo (action aiResp) \<noteq> []"
    by (simp add: nothingToDo_def)
qed

theorem composed_text_not_empty_witness:
  "resp_text (fst (compose (\<lambda>h env st ps. (Inr (RString []), st, [])) exampleEnv exampleListener
       \<lparr>userids = [''bot-1'', ''alice'']\<rparr> ''t1''
       \<lparr>action = ''name.agent.get'', parameters = \<lparr>param_type = None, param_name = None\<rparr>,
        speech = Some ''Hi''\<rparr> (Some HandleNameAgentGet))) =
     Some ''I have nothing to do with: \"name.agent.get\"'' \<and>
   resp_text (fst (respond exampleEnv exampleListener \<lparr>userids = [''bot-1'', ''alice'']\<rparr> ''t1''
       \<lparr>action = ''name.agent.get'',
        parameters = \<lparr>param_type = Some ''nickname'', param_name = None\<rparr>,
        speech = Some []\<rparr>)) =
     Some ''I have nothing to do with: \"name.agent.get\"'' \<and>
   Send \<lparr>distribution = \<lparr>userids = [''bot-1'', ''alice'']\<rparr>, threadId = ''t1'',
         resp_text = Some [], resp_html = None\<rparr>
     \<notin> set (snd (snd (onMessage exampleEnv ''bot-1'' exampleListener exampleEvent)))"
proof -
  let ?d = "\<lparr>userids = [''bot-1'', ''alice'']\<rparr>"
  let ?ps1 = "\<lparr>param_type = None, param_name = None\<rparr>"
  let ?ai1 = "\<lparr>action = ''name.agent.get'', parameters = ?ps1, speech = Some ''Hi''\<rparr>"
  let ?run = "\<lambda>(h :: protoMethod) (env :: env) (st :: listener) (ps :: params).
                 (Inr (RString []) :: error + result, st, [] :: call list)"
  let ?ps2 = "\<lparr>param_type = Some ''nickname'', param_name = None\<rparr>"
  let ?ai2 = "\<lparr>action = ''name.agent.get'', parameters = ?ps2, speech = Some []\<rparr>"
  let ?m = "\<lparr>distribution = ?d, threadId = ''t1'', resp_text = Some [], resp_html = None\<rparr>"
  have n: "nothingToDo ''name.agent.get'' = ''I have nothing to do with: \"name.agent.get\"''"
    by (simp add: nothingToDo_def)
  have r1: "?run HandleNameAgentGet exampleEnv exampleListener (parameters ?ai1) =
      (Inr (RString []), exampleListener, [])"
    by simp
  note i1 = composed_text_not_empty[of ?run exampleEnv exampleListener ?d "''t1''" ?ai1
      "Some HandleNameAgentGet" HandleNameAgentGet exampleListener "[]"]
  have a: "resp_text (fst (compose ?run exampleEnv exampleListener ?d ''t1'' ?ai1
      (Some HandleNameAgentGet))) = Some ''I have nothing to do with: \"name.agent.get\"''"
    using mp[OF i1[THEN conjunct2, THEN conjunct1] r1] by (simp add: n)
  have f: "findHandler ''name.agent.get'' = Some HandleNameAgentGet"
    by code_simp
  have r2: "\<not> truthy (speech ?ai2) \<and>
      invoke HandleNameAgentGet exampleEnv exampleListener (parameters ?ai2) =
      (Inr RUndefined, exampleListener, [])"
    by (simp add: truthy_def handleNameAgentGet_def)
  note i2 = composed_text_not_empty[of invoke exampleEnv exampleListener ?d "''t1''" ?ai2
      "Some HandleNameAgentGet" HandleNameAgentGet exampleListener "[]" "''bot-1''"
      exampleListener exampleEvent]
  have b: "resp_text (fst (respond exampleEnv exampleListener ?d ''t1'' ?ai2)) =
      Some ''I have nothing to do with: \"name.agent.get\"''"
    using mp[OF i2[THEN conjunct2, THEN conjunct2, THEN conjunct1] r2]
    by (simp add: respond_def f n)
  have "\<not> truthy (resp_text ?m)"
    by (simp add: truthy_def)
  with i2[THEN conjunct2, THEN conjunct2, THEN conjunct2, THEN conjunct1, THEN spec, of ?m]
  have c: "Send ?m \<notin> set (snd (snd (onMessage exampleEnv ''bot-1'' exampleListener exampleEvent)))"
    by (rule_tac notI) (drule (1) mp, simp)
  show ?thesis
    by (intro conjI, rule a, rule b, rule c)
qed

end
